theory Spec2Isabelle
  imports Main "HOL-Library.Word"
begin

section \<open>Keys, rows and the backing query\<close>

text \<open>
  An \<open>IDBKey\<close> is a null, string or number key. A \<open>RefPtr<IDBKey>\<close> of the source may be
  null, so every key-valued member is an \<open>IDBKey option\<close>.
\<close>

datatype IDBKey = NullKey | StringKey string | NumberKey int

text \<open>
  Modelled from the spec: \<open>IDBKey::isEqual\<close> is declared in IDBKey.h, which is not part of
  the source. The spec speaks of a candidate key being equal to a target key or to the
  previous key; the receiver is a key object, the argument a pointer that may be null, and a
  null argument equals no key.
\<close>

fun isEqual :: "IDBKey \<Rightarrow> IDBKey option \<Rightarrow> bool" where
  "isEqual k None = False"
| "isEqual k (Some k') = (k = k')"

text \<open>An \<open>int64_t\<close> row id; the cursor only stores it and compares it for equality.\<close>

type_synonym int64 = "64 word"

text \<open>
  Modelled from the spec: the constant \<open>InvalidId\<close> is declared in IDBCursorBackendImpl.h,
  which is not part of the source. The spec calls it the row identifier of a cursor with no
  row loaded and gives it no value. The model takes -1, which no row of a table carries as
  its id. No general theorem below unfolds this definition; only the examples, whose rows
  carry the ids 1 to 4, compare against the value.
\<close>

definition InvalidId :: int64 where
  "InvalidId = - 1"

text \<open>
  The columns \<open>loadCurrentRow\<close> reads from the row a statement is positioned on:
  column 0 with \<open>getColumnInt64\<close>, the key from column 1 with \<open>IDBKey::fromQuery\<close>, the blob
  of column 4, and the key from column 5 with \<open>IDBKey::fromQuery\<close> (null when the query of
  an object store has no such column). Line 144 of the source dereferences the key of
  column 1 unconditionally, so that column always holds a key object.
\<close>

record Row =
  col_id :: int64
  col_key :: IDBKey
  col_value :: string
  col_idbKeyValue :: "IDBKey option"

text \<open>
  A prepared statement that has been stepped onto a row: the row it is positioned on and
  the rows it has still to produce, in the order of the query.
\<close>

record SQLiteStatement =
  q_row :: Row
  q_pending :: "Row list"

datatype SQLResult = SQLResultRow | SQLResultDone

text \<open>
  Modelled from the spec: \<open>SQLiteStatement::step\<close> is not part of the source. The spec gives
  the backing query as a forward-only producer, \<open>stepNext() -> Row | EndOfResults\<close>.
\<close>

fun step :: "SQLiteStatement \<Rightarrow> SQLResult \<times> SQLiteStatement" where
  "step q =
     (case q_pending q of
        [] \<Rightarrow> (SQLResultDone, q)
      | r # rs \<Rightarrow> (SQLResultRow, q\<lparr>q_row := r, q_pending := rs\<rparr>))"

text \<open>The two tables \<open>currentRowExists\<close> selects from, each as the set of its row ids.\<close>

record IDBSQLiteDatabase =
  IndexData :: "int64 set"
  ObjectStoreData :: "int64 set"

section \<open>The cursor\<close>

datatype Direction = NEXT | NEXT_NO_DUPLICATE | PREV | PREV_NO_DUPLICATE

text \<open>
  The members of \<open>IDBCursorBackendImpl\<close> that belong to the cursor alone. The database, the
  transaction and the object store are shared objects the cursor only points to; the
  functions below take them as arguments. \<open>m_keyRange\<close> is stored and never read.
\<close>

record IDBCursorBackendImpl =
  m_direction :: Direction
  m_query :: "SQLiteStatement option"
  m_isSerializedScriptValueCursor :: bool
  m_currentId :: int64
  m_currentKey :: "IDBKey option"
  m_currentSerializedScriptValue :: "string option"
  m_currentIDBKeyValue :: "IDBKey option"

text \<open>
  \<open>loadCurrentRow\<close> reads \<open>*m_query\<close>. Both callers hold a statement: the constructor
  its argument, the loop of \<open>continueFunctionInternal\<close> the statement it has just stepped.
  The statement is therefore an argument here.
\<close>

definition loadCurrentRow :: "SQLiteStatement \<Rightarrow> IDBCursorBackendImpl \<Rightarrow> IDBCursorBackendImpl" where
  "loadCurrentRow q c =
     c\<lparr>m_currentId := col_id (q_row q),
       m_currentKey := Some (col_key (q_row q)),
       m_currentSerializedScriptValue :=
         (if m_isSerializedScriptValueCursor c then Some (col_value (q_row q))
          else m_currentSerializedScriptValue c),
       m_currentIDBKeyValue := col_idbKeyValue (q_row q)\<rparr>"

text \<open>
  The constructor stores its arguments and loads the row the statement stands on. The
  members it does not initialise are overwritten by \<open>loadCurrentRow\<close>, except the
  serialized value of a cursor that is not a value cursor, a null \<open>RefPtr\<close>.
\<close>

definition IDBCursorBackendImpl_new ::
    "Direction \<Rightarrow> SQLiteStatement \<Rightarrow> bool \<Rightarrow> IDBCursorBackendImpl" where
  "IDBCursorBackendImpl_new direction query isSerializedScriptValueCursor =
     loadCurrentRow query
       \<lparr>m_direction = direction,
        m_query = Some query,
        m_isSerializedScriptValueCursor = isSerializedScriptValueCursor,
        m_currentId = InvalidId,
        m_currentKey = None,
        m_currentSerializedScriptValue = None,
        m_currentIDBKeyValue = None\<rparr>"

definition currentRowExists :: "IDBSQLiteDatabase \<Rightarrow> IDBCursorBackendImpl \<Rightarrow> bool" where
  "currentRowExists db c =
     (case m_currentIDBKeyValue c of
        Some _ \<Rightarrow> m_currentId c \<in> IndexData db
      | None \<Rightarrow> m_currentId c \<in> ObjectStoreData db)"

section \<open>Update and delete through the cursor\<close>

text \<open>
  Codes of \<open>IDBDatabaseException\<close>, whose header is not part of the source. The cursor
  writes \<open>NOT_ALLOWED_ERR\<close> only.
\<close>

datatype ExceptionCode =
  UNKNOWN_ERR | NOT_FOUND_ERR | CONSTRAINT_ERR | DATA_ERR | NOT_ALLOWED_ERR

datatype PutMode = AddOrUpdate | AddOnly | CursorUpdate

text \<open>
  The calls the cursor hands to \<open>m_objectStore\<close>. What the object store does with them is
  the object store's business.
\<close>

datatype StoreCall =
    ObjectStore_put string "IDBKey option" PutMode
  | ObjectStore_deleteFunction "IDBKey option"

text \<open>
  The result is the cursor after the call, and either the exception code written to \<open>ec\<close>
  before returning or the call delegated to the object store.
\<close>

definition update ::
    "IDBCursorBackendImpl \<Rightarrow> string \<Rightarrow> IDBCursorBackendImpl \<times> (ExceptionCode + StoreCall)" where
  "update c v =
     (if m_query c = None \<or> m_currentId c = InvalidId \<or> \<not> m_isSerializedScriptValueCursor c
      then (c, Inl NOT_ALLOWED_ERR)
      else
        let key = (case m_currentIDBKeyValue c of Some k \<Rightarrow> Some k | None \<Rightarrow> m_currentKey c)
        in (c, Inr (ObjectStore_put v key CursorUpdate)))"

definition deleteFunction ::
    "IDBCursorBackendImpl \<Rightarrow> IDBCursorBackendImpl \<times> (ExceptionCode + StoreCall)" where
  "deleteFunction c =
     (if m_query c = None \<or> m_currentId c = InvalidId \<or> \<not> m_isSerializedScriptValueCursor c
      then (c, Inl NOT_ALLOWED_ERR)
      else
        let key = (case m_currentIDBKeyValue c of Some k \<Rightarrow> Some k | None \<Rightarrow> m_currentKey c)
        in (c, Inr (ObjectStore_deleteFunction key)))"

section \<open>Advancing\<close>

text \<open>
  What \<open>IDBCallbacks\<close> receives: \<open>onSuccess\<close> with the null value or with the cursor, or
  \<open>onError\<close>. A callbacks object is modelled by the list of calls made on it, oldest first.
\<close>

datatype CallbackResult = NullValue | CursorResult IDBCursorBackendImpl

datatype CallbackEvent = OnSuccess CallbackResult | OnError ExceptionCode

text \<open>
  The test at the head of the loop, line 120:
  \<open>!cursor->m_query || cursor->m_query->step() != SQLResultRow\<close>. The result is \<open>None\<close>
  when the test holds, and the stepped statement otherwise.
\<close>

definition stepToRow :: "SQLiteStatement option \<Rightarrow> SQLiteStatement option" where
  "stepToRow mq =
     (case mq of
        None \<Rightarrow> None
      | Some q \<Rightarrow> (case step q of (SQLResultRow, q') \<Rightarrow> Some q' | (SQLResultDone, _) \<Rightarrow> None))"

text \<open>
  The loop of \<open>continueFunctionInternal\<close>; each \<open>continue\<close> is a recursive call. The result
  is the cursor and the callbacks object when the function returns. In line 144 the
  receiver \<open>cursor->m_currentKey\<close> has just been stored by \<open>loadCurrentRow\<close> and is not
  null; the \<open>None\<close> branch of that test is never taken.
\<close>

function continueFunctionInternal ::
    "IDBSQLiteDatabase \<Rightarrow> IDBCursorBackendImpl \<Rightarrow> IDBKey option \<Rightarrow> CallbackEvent list
      \<Rightarrow> IDBCursorBackendImpl \<times> CallbackEvent list" where
  "continueFunctionInternal db cursor key callbacks =
     (case stepToRow (m_query cursor) of
        None \<Rightarrow>
          (cursor\<lparr>m_query := None,
                  m_currentId := InvalidId,
                  m_currentKey := None,
                  m_currentSerializedScriptValue := None,
                  m_currentIDBKeyValue := None\<rparr>,
           callbacks @ [OnSuccess NullValue])
      | Some q \<Rightarrow>
          (let oldKey = m_currentKey cursor;
               cursor' = loadCurrentRow q (cursor\<lparr>m_query := Some q\<rparr>)
           in if \<not> currentRowExists db cursor' then
                continueFunctionInternal db cursor' key callbacks
              else if (case key of None \<Rightarrow> False
                       | Some k \<Rightarrow> \<not> isEqual k (m_currentKey cursor')) then
                continueFunctionInternal db cursor' key callbacks
              else if m_direction cursor' = NEXT \<or> m_direction cursor' = PREV then
                (cursor', callbacks @ [OnSuccess (CursorResult cursor')])
              else if \<not> (case m_currentKey cursor' of None \<Rightarrow> False
                          | Some k \<Rightarrow> isEqual k oldKey) then
                (cursor', callbacks @ [OnSuccess (CursorResult cursor')])
              else
                continueFunctionInternal db cursor' key callbacks))"
  by pat_completeness auto

definition pendingRows :: "IDBCursorBackendImpl \<Rightarrow> Row list" where
  "pendingRows c = (case m_query c of None \<Rightarrow> [] | Some q \<Rightarrow> q_pending q)"

lemma stepToRow_Some:
  "stepToRow mq = Some q' \<longleftrightarrow>
     (\<exists>q r rs. mq = Some q \<and> q_pending q = r # rs \<and> q' = q\<lparr>q_row := r, q_pending := rs\<rparr>)"
  by (auto simp: stepToRow_def split: option.splits list.splits)

lemma stepToRow_None:
  "stepToRow mq = None \<longleftrightarrow> (mq = None \<or> (\<exists>q. mq = Some q \<and> q_pending q = []))"
  by (auto simp: stepToRow_def split: option.splits list.splits)

lemma pendingRows_loadCurrentRow [simp]:
  "pendingRows (loadCurrentRow q c) = pendingRows c"
  by (simp add: pendingRows_def loadCurrentRow_def)

lemma pendingRows_stepped:
  "stepToRow (m_query c) = Some q \<Longrightarrow>
     length (pendingRows (c\<lparr>m_query := Some q\<rparr>)) < length (pendingRows c)"
  by (auto simp: stepToRow_Some pendingRows_def)

termination continueFunctionInternal
  by (relation "measure (\<lambda>(db, cursor, key, callbacks). length (pendingRows cursor))")
     (simp_all add: pendingRows_stepped)

section \<open>Scheduling an advance\<close>

text \<open>
  The task \<open>continueFunction\<close> creates binds the cursor, the key and the callbacks to
  \<open>continueFunctionInternal\<close>. The cursor and the callbacks are objects the task points
  to, so a task carries the key and finds the two others in the state it runs in.
\<close>

datatype Task = ContinueTask "IDBKey option"

record IDBTransaction =
  t_finished :: bool
  t_taskQueue :: "Task list"

text \<open>
  Modelled from the spec: \<open>IDBTransactionBackendInterface::scheduleTask\<close> is not part of
  the source. The spec gives \<open>scheduleTask(fn) -> bool\<close>, false when the transaction
  rejects the task (a transaction that is finishing), and then nothing is enqueued.
\<close>

definition scheduleTask :: "IDBTransaction \<Rightarrow> Task \<Rightarrow> bool \<times> IDBTransaction" where
  "scheduleTask t task =
     (if t_finished t then (False, t)
      else (True, t\<lparr>t_taskQueue := t_taskQueue t @ [task]\<rparr>))"

text \<open>
  The result is the cursor, the transaction and the callbacks object after the call, and
  the exception code written to \<open>ec\<close>, if one is.
\<close>

definition continueFunction ::
    "IDBCursorBackendImpl \<Rightarrow> IDBTransaction \<Rightarrow> IDBKey option \<Rightarrow> CallbackEvent list
      \<Rightarrow> IDBCursorBackendImpl \<times> IDBTransaction \<times> CallbackEvent list \<times> ExceptionCode option" where
  "continueFunction cursor t key callbacks =
     (case scheduleTask t (ContinueTask key) of
        (True, t') \<Rightarrow> (cursor, t', callbacks, None)
      | (False, t') \<Rightarrow> (cursor, t', callbacks, Some NOT_ALLOWED_ERR))"

text \<open>The transaction running a task it has accepted.\<close>

fun runTask ::
    "IDBSQLiteDatabase \<Rightarrow> Task \<Rightarrow> IDBCursorBackendImpl \<Rightarrow> CallbackEvent list
      \<Rightarrow> IDBCursorBackendImpl \<times> CallbackEvent list" where
  "runTask db (ContinueTask key) cursor callbacks =
     continueFunctionInternal db cursor key callbacks"

section \<open>Notions the properties are stated with\<close>

text \<open>
  A row exists in its authoritative table: \<open>IndexData\<close> when the row carries a secondary
  key value, \<open>ObjectStoreData\<close> otherwise.
\<close>

definition rowExists :: "IDBSQLiteDatabase \<Rightarrow> Row \<Rightarrow> bool" where
  "rowExists db r =
     (if col_idbKeyValue r \<noteq> None then col_id r \<in> IndexData db
      else col_id r \<in> ObjectStoreData db)"

text \<open>
  The cursor standing on row \<open>r\<close> with the rows \<open>rs\<close> still to come: what lines 120 and
  131 make of a cursor whose statement \<open>q\<close> yields \<open>r\<close> next.
\<close>

definition positionedAt ::
    "IDBCursorBackendImpl \<Rightarrow> SQLiteStatement \<Rightarrow> Row \<Rightarrow> Row list \<Rightarrow> IDBCursorBackendImpl" where
  "positionedAt c q r rs =
     loadCurrentRow (q\<lparr>q_row := r, q_pending := rs\<rparr>)
       (c\<lparr>m_query := Some (q\<lparr>q_row := r, q_pending := rs\<rparr>)\<rparr>)"

text \<open>The exhausted cursor: the statement released and every position member cleared.\<close>

definition exhausted :: "IDBCursorBackendImpl \<Rightarrow> IDBCursorBackendImpl" where
  "exhausted c =
     c\<lparr>m_query := None,
       m_currentId := InvalidId,
       m_currentKey := None,
       m_currentSerializedScriptValue := None,
       m_currentIDBKeyValue := None\<rparr>"

definition noDuplicate :: "Direction \<Rightarrow> bool" where
  "noDuplicate d = (d = NEXT_NO_DUPLICATE \<or> d = PREV_NO_DUPLICATE)"

text \<open>
  The first of the rows \<open>rows\<close> that an advance accepts, with the rows after it: the row
  exists, matches the target key if one is given and, for a direction without duplicates,
  its key differs from \<open>prev\<close>, the key of the row fetched before it.
\<close>

fun firstAccepted ::
    "IDBSQLiteDatabase \<Rightarrow> bool \<Rightarrow> IDBKey option \<Rightarrow> IDBKey option \<Rightarrow> Row list
      \<Rightarrow> (Row \<times> Row list) option" where
  "firstAccepted db nodup key prev [] = None"
| "firstAccepted db nodup key prev (r # rs) =
     (if rowExists db r \<and> (key = None \<or> key = Some (col_key r))
         \<and> (\<not> nodup \<or> prev \<noteq> Some (col_key r))
      then Some (r, rs)
      else firstAccepted db nodup key (Some (col_key r)) rs)"

subsection \<open>An index with the keys A, B, B, C\<close>

definition exRowA :: Row where
  "exRowA = \<lparr>col_id = 1, col_key = StringKey ''A'', col_value = [],
             col_idbKeyValue = Some (NumberKey 10)\<rparr>"

definition exRowB :: Row where
  "exRowB = \<lparr>col_id = 2, col_key = StringKey ''B'', col_value = [],
             col_idbKeyValue = Some (NumberKey 20)\<rparr>"

definition exRowB' :: Row where
  "exRowB' = \<lparr>col_id = 3, col_key = StringKey ''B'', col_value = [],
              col_idbKeyValue = Some (NumberKey 30)\<rparr>"

definition exRowC :: Row where
  "exRowC = \<lparr>col_id = 4, col_key = StringKey ''C'', col_value = [],
             col_idbKeyValue = Some (NumberKey 40)\<rparr>"

definition exQuery :: SQLiteStatement where
  "exQuery = \<lparr>q_row = exRowA, q_pending = [exRowB, exRowB', exRowC]\<rparr>"

text \<open>All four index rows exist; the same with the first row of key B deleted.\<close>

definition exDb :: IDBSQLiteDatabase where
  "exDb = \<lparr>IndexData = {1, 2, 3, 4}, ObjectStoreData = {}\<rparr>"

definition exDbDeleted :: IDBSQLiteDatabase where
  "exDbDeleted = \<lparr>IndexData = {1, 3, 4}, ObjectStoreData = {}\<rparr>"

definition exCursor :: "Direction \<Rightarrow> IDBCursorBackendImpl" where
  "exCursor d = IDBCursorBackendImpl_new d exQuery True"

text \<open>A statement with one row to come, and a transaction that accepts tasks.\<close>

definition exQueryAB :: SQLiteStatement where
  "exQueryAB = \<lparr>q_row = exRowA, q_pending = [exRowB]\<rparr>"

definition exTransaction :: IDBTransaction where
  "exTransaction = \<lparr>t_finished = False, t_taskQueue = []\<rparr>"

lemmas ex_defs =
  exRowA_def exRowB_def exRowB'_def exRowC_def exQuery_def exDb_def exDbDeleted_def
  exCursor_def IDBCursorBackendImpl_new_def loadCurrentRow_def InvalidId_def

section \<open>Basic facts\<close>

declare continueFunctionInternal.simps [simp del]

text \<open>
  \<open>loadCurrentRow\<close> always stores a key, so the receiver of \<open>isEqual\<close> in line 144 is
  never null.
\<close>

lemma loadCurrentRow_key: "m_currentKey (loadCurrentRow q c) = Some (col_key (q_row q))"
  by (simp add: loadCurrentRow_def)

lemma positionedAt_fields [simp]:
  "m_query (positionedAt c q r rs) = Some (q\<lparr>q_row := r, q_pending := rs\<rparr>)"
  "m_direction (positionedAt c q r rs) = m_direction c"
  "m_isSerializedScriptValueCursor (positionedAt c q r rs) = m_isSerializedScriptValueCursor c"
  "m_currentId (positionedAt c q r rs) = col_id r"
  "m_currentKey (positionedAt c q r rs) = Some (col_key r)"
  "m_currentIDBKeyValue (positionedAt c q r rs) = col_idbKeyValue r"
  "m_currentSerializedScriptValue (positionedAt c q r rs) =
     (if m_isSerializedScriptValueCursor c then Some (col_value r)
      else m_currentSerializedScriptValue c)"
  by (simp_all add: positionedAt_def loadCurrentRow_def)

lemma exhausted_fields [simp]:
  "m_query (exhausted c) = None"
  "m_direction (exhausted c) = m_direction c"
  "m_isSerializedScriptValueCursor (exhausted c) = m_isSerializedScriptValueCursor c"
  "m_currentId (exhausted c) = InvalidId"
  "m_currentKey (exhausted c) = None"
  "m_currentIDBKeyValue (exhausted c) = None"
  "m_currentSerializedScriptValue (exhausted c) = None"
  by (simp_all add: exhausted_def)

text \<open>The check of the source, on the cursor, is the check of the row it has loaded.\<close>

lemma currentRowExists_positionedAt [simp]:
  "currentRowExists db (positionedAt c q r rs) = rowExists db r"
  by (simp add: currentRowExists_def rowExists_def split: option.splits)

lemma positionedAt_again [simp]:
  "positionedAt (positionedAt c q r rs) (q\<lparr>q_row := r, q_pending := rs\<rparr>) r' rs' =
     positionedAt c q r' rs'"
  by (simp add: positionedAt_def loadCurrentRow_def)

lemma exhausted_positionedAt [simp]: "exhausted (positionedAt c q r rs) = exhausted c"
  by (simp add: exhausted_def positionedAt_def loadCurrentRow_def)

lemma exhausted_idem [simp]: "exhausted (exhausted c) = exhausted c"
  by (simp add: exhausted_def)

lemma pendingRows_exhausted [simp]: "pendingRows (exhausted c) = []"
  by (simp add: pendingRows_def)

text \<open>Leaving the loop at line 120.\<close>

lemma cfi_exit:
  "pendingRows c = [] \<Longrightarrow>
     continueFunctionInternal db c key cbs = (exhausted c, cbs @ [OnSuccess NullValue])"
  by (subst continueFunctionInternal.simps)
     (auto simp: pendingRows_def stepToRow_def exhausted_def split: option.splits)

text \<open>One turn of the loop on a statement that yields the row \<open>r\<close>.\<close>

lemma cfi_row:
  assumes "m_query c = Some q" and "q_pending q = r # rs"
  shows "continueFunctionInternal db c key cbs =
     (if \<not> rowExists db r then
        continueFunctionInternal db (positionedAt c q r rs) key cbs
      else if key \<noteq> None \<and> key \<noteq> Some (col_key r) then
        continueFunctionInternal db (positionedAt c q r rs) key cbs
      else if noDuplicate (m_direction c) \<and> m_currentKey c = Some (col_key r) then
        continueFunctionInternal db (positionedAt c q r rs) key cbs
      else (positionedAt c q r rs, cbs @ [OnSuccess (CursorResult (positionedAt c q r rs))]))"
proof -
  have s: "stepToRow (m_query c) = Some (q\<lparr>q_row := r, q_pending := rs\<rparr>)"
    using assms by (simp add: stepToRow_def)
  have p: "loadCurrentRow (q\<lparr>q_row := r, q_pending := rs\<rparr>)
             (c\<lparr>m_query := Some (q\<lparr>q_row := r, q_pending := rs\<rparr>)\<rparr>) = positionedAt c q r rs"
    by (simp add: positionedAt_def)
  have d: "noDuplicate (m_direction c) \<longleftrightarrow> \<not> (m_direction c = NEXT \<or> m_direction c = PREV)"
    by (cases "m_direction c") (simp_all add: noDuplicate_def)
  show ?thesis
    by (subst continueFunctionInternal.simps)
       (cases key; cases "m_currentKey c"; auto simp: s p d Let_def)
qed

text \<open>The whole loop: it stops on the first accepted row, or runs the statement out.\<close>

lemma cfi_firstAccepted:
  "m_query c = Some q \<Longrightarrow> q_pending q = rows \<Longrightarrow>
   continueFunctionInternal db c key cbs =
     (case firstAccepted db (noDuplicate (m_direction c)) key (m_currentKey c) rows of
        None \<Rightarrow> (exhausted c, cbs @ [OnSuccess NullValue])
      | Some (r, rs) \<Rightarrow>
          (positionedAt c q r rs, cbs @ [OnSuccess (CursorResult (positionedAt c q r rs))]))"
proof (induction rows arbitrary: c q key)
  case Nil
  then show ?case by (simp add: cfi_exit pendingRows_def)
next
  case (Cons r rs)
  let ?c' = "positionedAt c q r rs"
  have ih: "\<And>key. continueFunctionInternal db ?c' key cbs =
     (case firstAccepted db (noDuplicate (m_direction c)) key (Some (col_key r)) rs of
        None \<Rightarrow> (exhausted c, cbs @ [OnSuccess NullValue])
      | Some (r', rs') \<Rightarrow>
          (positionedAt c q r' rs', cbs @ [OnSuccess (CursorResult (positionedAt c q r' rs'))]))"
    using Cons.IH [of ?c' "q\<lparr>q_row := r, q_pending := rs\<rparr>"]
    by (simp split: option.splits)
  show ?case
    using Cons.prems by (simp add: cfi_row [of c q r rs] ih)
qed

lemma firstAccepted_suffix:
  "firstAccepted db nodup key prev rows = Some (r, rs) \<Longrightarrow>
     \<exists>skipped. rows = skipped @ r # rs"
proof (induction rows arbitrary: prev)
  case Nil
  then show ?case by simp
next
  case (Cons x xs)
  show ?case
  proof (cases "firstAccepted db nodup key prev (x # xs) = Some (x, xs)")
    case True
    with Cons.prems show ?thesis by simp
  next
    case False
    with Cons.prems have "firstAccepted db nodup key (Some (col_key x)) xs = Some (r, rs)"
      by (simp split: if_splits)
    from Cons.IH [OF this] obtain skipped where "xs = skipped @ r # rs" ..
    then have "x # xs = (x # skipped) @ r # rs" by simp
    then show ?thesis ..
  qed
qed

lemma firstAccepted_accepts:
  "firstAccepted db nodup key prev rows = Some (r, rs) \<Longrightarrow>
     rowExists db r \<and> (key = None \<or> key = Some (col_key r))"
  by (induction rows arbitrary: prev) (auto split: if_splits)

section \<open>Update and delete\<close>

text \<open>
  C6. \<open>update\<close> and \<open>deleteFunction\<close> write \<open>NOT_ALLOWED_ERR\<close>, and hand nothing to the
  object store, exactly when the statement is absent, or the current row id is \<open>InvalidId\<close>,
  or the cursor is not a value cursor. Otherwise \<open>update\<close> hands the object store a put
  with \<open>CursorUpdate\<close> and \<open>deleteFunction\<close> a delete by key, both with the secondary key
  value as the key when there is one and with the current key otherwise.
\<close>

theorem update_delete_guard_and_target:
  "(snd (update c v) = Inl NOT_ALLOWED_ERR \<longleftrightarrow>
      m_query c = None \<or> m_currentId c = InvalidId \<or> \<not> m_isSerializedScriptValueCursor c)
   \<and> (snd (deleteFunction c) = Inl NOT_ALLOWED_ERR \<longleftrightarrow>
      m_query c = None \<or> m_currentId c = InvalidId \<or> \<not> m_isSerializedScriptValueCursor c)
   \<and> (\<not> (m_query c = None \<or> m_currentId c = InvalidId \<or> \<not> m_isSerializedScriptValueCursor c) \<longrightarrow>
        snd (update c v) =
          Inr (ObjectStore_put v
                (if m_currentIDBKeyValue c \<noteq> None then m_currentIDBKeyValue c
                 else m_currentKey c) CursorUpdate)
        \<and> snd (deleteFunction c) =
          Inr (ObjectStore_deleteFunction
                (if m_currentIDBKeyValue c \<noteq> None then m_currentIDBKeyValue c
                 else m_currentKey c)))"
  by (cases "m_currentIDBKeyValue c") (simp_all add: update_def deleteFunction_def)

text \<open>
  On the example cursor, which stands on row A of the index, both calls go to the object
  store with the primary key 10 of that row; on the exhausted cursor both are refused.
\<close>

theorem update_delete_guard_and_target_witness:
  "\<not> (m_query (exCursor NEXT) = None \<or> m_currentId (exCursor NEXT) = InvalidId
       \<or> \<not> m_isSerializedScriptValueCursor (exCursor NEXT))
   \<and> snd (update (exCursor NEXT) ''v'') =
        Inr (ObjectStore_put ''v'' (Some (NumberKey 10)) CursorUpdate)
   \<and> snd (deleteFunction (exCursor NEXT)) =
        Inr (ObjectStore_deleteFunction (Some (NumberKey 10)))
   \<and> snd (update (exhausted (exCursor NEXT)) ''v'') = Inl NOT_ALLOWED_ERR
   \<and> snd (deleteFunction (exhausted (exCursor NEXT))) = Inl NOT_ALLOWED_ERR"
  using update_delete_guard_and_target [of "exCursor NEXT" "''v''"]
    update_delete_guard_and_target [of "exhausted (exCursor NEXT)" "''v''"]
  by (simp add: ex_defs)

text \<open>
  C10. \<open>update\<close> and \<open>deleteFunction\<close> leave the cursor as it is, statement, row id, key,
  serialized value, secondary key value and direction, whether they are refused or
  delegate.
\<close>

theorem update_delete_frame:
  "fst (update c v) = c \<and> fst (deleteFunction c) = c"
  by (simp add: update_def deleteFunction_def Let_def)

theorem update_delete_frame_witness:
  "fst (update (exCursor NEXT) ''v'') = exCursor NEXT
   \<and> fst (deleteFunction (exCursor NEXT)) = exCursor NEXT
   \<and> fst (update (exhausted (exCursor NEXT)) ''v'') = exhausted (exCursor NEXT)
   \<and> fst (deleteFunction (exhausted (exCursor NEXT))) = exhausted (exCursor NEXT)"
  using update_delete_frame [of "exCursor NEXT" "''v''"]
    update_delete_frame [of "exhausted (exCursor NEXT)" "''v''"]
  by simp

section \<open>The filters of an advance\<close>

text \<open>
  C1. An advance on a cursor whose statement yields a row \<open>r\<close> loads it and filters it in
  this order. The row no longer exists in its authoritative table (the check of the source
  on the cursor is that check on the row): it is discarded and the loop goes on from the
  cursor that has loaded it. A target key is given and differs from the key of the row:
  discarded. The direction is without duplicates and the key of the row is the key the
  cursor held before: discarded. Otherwise the cursor stays on the row and the callbacks
  receive one \<open>onSuccess\<close> with the cursor itself; for \<open>NEXT\<close> and \<open>PREV\<close> that is every
  existing row that matches the target.
\<close>

theorem advance_filter_order:
  assumes "m_query c = Some q" and "q_pending q = r # rs"
  shows
    "currentRowExists db (positionedAt c q r rs) = rowExists db r
     \<and> (\<not> rowExists db r \<longrightarrow>
          continueFunctionInternal db c key cbs =
            continueFunctionInternal db (positionedAt c q r rs) key cbs)
     \<and> (rowExists db r \<and> key \<noteq> None \<and> key \<noteq> Some (col_key r) \<longrightarrow>
          continueFunctionInternal db c key cbs =
            continueFunctionInternal db (positionedAt c q r rs) key cbs)
     \<and> (rowExists db r \<and> (key = None \<or> key = Some (col_key r))
          \<and> noDuplicate (m_direction c) \<and> m_currentKey c = Some (col_key r) \<longrightarrow>
          continueFunctionInternal db c key cbs =
            continueFunctionInternal db (positionedAt c q r rs) key cbs)
     \<and> (rowExists db r \<and> (key = None \<or> key = Some (col_key r))
          \<and> (noDuplicate (m_direction c) \<longrightarrow> m_currentKey c \<noteq> Some (col_key r)) \<longrightarrow>
          continueFunctionInternal db c key cbs =
            (positionedAt c q r rs,
             cbs @ [OnSuccess (CursorResult (positionedAt c q r rs))]))"
  using cfi_row [OF assms, of db key cbs] by auto

text \<open>
  On the example index with the first row of key B deleted, that row is discarded; with
  the row in place, a cursor without duplicates that stands on A stops on it.
\<close>

theorem advance_filter_order_witness:
  "m_query (exCursor NEXT_NO_DUPLICATE) = Some exQuery
   \<and> q_pending exQuery = exRowB # [exRowB', exRowC]
   \<and> \<not> rowExists exDbDeleted exRowB
   \<and> continueFunctionInternal exDbDeleted (exCursor NEXT_NO_DUPLICATE) None [] =
       continueFunctionInternal exDbDeleted
         (positionedAt (exCursor NEXT_NO_DUPLICATE) exQuery exRowB [exRowB', exRowC]) None []
   \<and> rowExists exDb exRowB
   \<and> continueFunctionInternal exDb (exCursor NEXT_NO_DUPLICATE) None [] =
       (positionedAt (exCursor NEXT_NO_DUPLICATE) exQuery exRowB [exRowB', exRowC],
        [OnSuccess (CursorResult
           (positionedAt (exCursor NEXT_NO_DUPLICATE) exQuery exRowB [exRowB', exRowC]))])"
proof -
  have q: "m_query (exCursor NEXT_NO_DUPLICATE) = Some exQuery"
    by (simp add: exCursor_def IDBCursorBackendImpl_new_def loadCurrentRow_def)
  have p: "q_pending exQuery = exRowB # [exRowB', exRowC]"
    by (simp add: exQuery_def)
  have d: "\<not> rowExists exDbDeleted exRowB" "rowExists exDb exRowB"
    by (simp_all add: rowExists_def exDbDeleted_def exDb_def exRowB_def)
  have k: "m_currentKey (exCursor NEXT_NO_DUPLICATE) \<noteq> Some (col_key exRowB)"
    by (simp add: ex_defs)
  show ?thesis
    using advance_filter_order [OF q p, of exDbDeleted None "[]"]
      advance_filter_order [OF q p, of exDb None "[]"] q p d k
    by simp
qed

section \<open>The outcome of an advance\<close>

text \<open>
  An advance ends in one of two ways: exhausted, with one \<open>onSuccess\<close> of the null value,
  or on an existing row that matches the target key, with one \<open>onSuccess\<close> of the cursor.
\<close>

lemma cfi_result:
  "continueFunctionInternal db c key cbs = (exhausted c, cbs @ [OnSuccess NullValue])
   \<or> (\<exists>q skipped r rs.
         m_query c = Some q \<and> q_pending q = skipped @ r # rs
         \<and> rowExists db r \<and> (key = None \<or> key = Some (col_key r))
         \<and> continueFunctionInternal db c key cbs =
             (positionedAt c q r rs,
              cbs @ [OnSuccess (CursorResult (positionedAt c q r rs))]))"
proof (cases "m_query c")
  case None
  then have "pendingRows c = []" by (simp add: pendingRows_def)
  then show ?thesis by (simp add: cfi_exit)
next
  case (Some q)
  show ?thesis
  proof (cases "firstAccepted db (noDuplicate (m_direction c)) key (m_currentKey c) (q_pending q)")
    case None
    with Some show ?thesis by (simp add: cfi_firstAccepted [OF Some refl])
  next
    case (Some a)
    obtain r rs where a: "a = (r, rs)" by (cases a)
    from Some a firstAccepted_suffix obtain skipped where "q_pending q = skipped @ r # rs"
      by blast
    moreover from Some a firstAccepted_accepts
    have "rowExists db r \<and> (key = None \<or> key = Some (col_key r))" by blast
    moreover have "continueFunctionInternal db c key cbs =
        (positionedAt c q r rs, cbs @ [OnSuccess (CursorResult (positionedAt c q r rs))])"
      using Some a \<open>m_query c = Some q\<close> by (simp add: cfi_firstAccepted [OF _ refl])
    ultimately show ?thesis using \<open>m_query c = Some q\<close> by blast
  qed
qed

lemma cfi_exit_imp:
  "pendingRows c = [] \<longrightarrow>
     continueFunctionInternal db c key cbs = (exhausted c, cbs @ [OnSuccess NullValue])"
  by (simp add: cfi_exit)

lemma cfi_exhausted:
  "continueFunctionInternal db' (exhausted c) key' cbs' =
     (exhausted c, cbs' @ [OnSuccess NullValue])"
  using cfi_exit [of "exhausted c" db' key' cbs'] by simp

lemma cfi_released:
  "m_query (fst (continueFunctionInternal db c key cbs)) = None \<longrightarrow>
     continueFunctionInternal db c key cbs = (exhausted c, cbs @ [OnSuccess NullValue])"
proof
  assume n: "m_query (fst (continueFunctionInternal db c key cbs)) = None"
  from cfi_result [of db c key cbs]
  show "continueFunctionInternal db c key cbs = (exhausted c, cbs @ [OnSuccess NullValue])"
  proof
    assume "continueFunctionInternal db c key cbs = (exhausted c, cbs @ [OnSuccess NullValue])"
    then show ?thesis .
  next
    assume "\<exists>q skipped r rs.
       m_query c = Some q \<and> q_pending q = skipped @ r # rs
       \<and> rowExists db r \<and> (key = None \<or> key = Some (col_key r))
       \<and> continueFunctionInternal db c key cbs =
           (positionedAt c q r rs,
            cbs @ [OnSuccess (CursorResult (positionedAt c q r rs))])"
    then obtain q r rs where "continueFunctionInternal db c key cbs =
           (positionedAt c q r rs,
            cbs @ [OnSuccess (CursorResult (positionedAt c q r rs))])"
      by blast
    then have "m_query (fst (continueFunctionInternal db c key cbs)) \<noteq> None" by simp
    with n show ?thesis by simp
  qed
qed

text \<open>
  C3. An advance that finds the statement absent, or with no row left, releases the
  statement, sets the row id to \<open>InvalidId\<close>, clears the key, the serialized value and the
  secondary key value, and calls \<open>onSuccess\<close> once with the null value, never \<open>onError\<close>.
  So does every advance that ends with the statement released, whatever rows it has
  discarded before. The exhausted cursor is final: every later advance, under any database
  and with any target key, leaves it as it is and again reports the null value.
\<close>

theorem advance_exhaustion:
  "(pendingRows c = [] \<longrightarrow>
      continueFunctionInternal db c key cbs = (exhausted c, cbs @ [OnSuccess NullValue]))
   \<and> (m_query (fst (continueFunctionInternal db c key cbs)) = None \<longrightarrow>
      continueFunctionInternal db c key cbs = (exhausted c, cbs @ [OnSuccess NullValue]))
   \<and> m_query (exhausted c) = None
   \<and> m_currentId (exhausted c) = InvalidId
   \<and> m_currentKey (exhausted c) = None
   \<and> m_currentSerializedScriptValue (exhausted c) = None
   \<and> m_currentIDBKeyValue (exhausted c) = None
   \<and> continueFunctionInternal db' (exhausted c) key' cbs' =
       (exhausted c, cbs' @ [OnSuccess NullValue])"
  by (intro conjI cfi_exit_imp cfi_released cfi_exhausted exhausted_fields)

text \<open>
  An exhausted cursor stays exhausted; and a cursor on row A whose only row to come has
  been deleted is exhausted by the advance.
\<close>

theorem advance_exhaustion_witness:
  "pendingRows (exhausted (exCursor PREV)) = []
   \<and> continueFunctionInternal exDb (exhausted (exCursor PREV)) None [] =
       (exhausted (exCursor PREV), [OnSuccess NullValue])
   \<and> m_query (fst (continueFunctionInternal exDbDeleted
         (IDBCursorBackendImpl_new NEXT exQueryAB True) None [])) = None
   \<and> continueFunctionInternal exDbDeleted (IDBCursorBackendImpl_new NEXT exQueryAB True) None [] =
       (exhausted (IDBCursorBackendImpl_new NEXT exQueryAB True), [OnSuccess NullValue])"
proof -
  have n: "m_query (fst (continueFunctionInternal exDbDeleted
         (IDBCursorBackendImpl_new NEXT exQueryAB True) None [])) = None"
    by (simp add: continueFunctionInternal.simps stepToRow_def currentRowExists_def Let_def
        exQueryAB_def ex_defs)
  have e: "pendingRows (exhausted (exCursor PREV)) = []"
    by (rule pendingRows_exhausted)
  note w1 = advance_exhaustion [of "exhausted (exCursor PREV)" exDb None "[]", THEN conjunct1]
  note w2 = advance_exhaustion [of "IDBCursorBackendImpl_new NEXT exQueryAB True" exDbDeleted
      None "[]", THEN conjunct2, THEN conjunct1]
  show ?thesis
    by (intro conjI e n w1 [THEN mp, OF e, simplified] w2 [THEN mp, OF n, simplified])
qed

text \<open>
  C9. An advance runs to its end on every statement, and calls the callbacks exactly once
  on the way: \<open>onSuccess\<close> with the null value, the cursor being exhausted, or \<open>onSuccess\<close>
  with the cursor itself, the cursor holding a statement and a key. Nothing else is
  appended to the calls made before.
\<close>

theorem advance_one_callback:
  "\<exists>r. snd (continueFunctionInternal db c key cbs) = cbs @ [OnSuccess r]
     \<and> (r = NullValue \<and> fst (continueFunctionInternal db c key cbs) = exhausted c
        \<or> r = CursorResult (fst (continueFunctionInternal db c key cbs))
          \<and> m_query (fst (continueFunctionInternal db c key cbs)) \<noteq> None
          \<and> m_currentKey (fst (continueFunctionInternal db c key cbs)) \<noteq> None)"
  using cfi_result [of db c key cbs] by auto

theorem advance_one_callback_witness:
  "snd (continueFunctionInternal exDb (exCursor NEXT) None []) =
     [OnSuccess (CursorResult (fst (continueFunctionInternal exDb (exCursor NEXT) None [])))]
   \<and> snd (continueFunctionInternal exDb (exhausted (exCursor NEXT)) None []) =
     [OnSuccess NullValue]"
proof -
  have a: "m_query (fst (continueFunctionInternal exDb (exCursor NEXT) None [])) \<noteq> None"
    by (simp add: continueFunctionInternal.simps stepToRow_def currentRowExists_def Let_def ex_defs)
  have b: "m_query (fst (continueFunctionInternal exDb (exhausted (exCursor NEXT)) None [])) = None"
    by (simp add: cfi_exit)
  from advance_one_callback [of exDb "exCursor NEXT" None "[]"] a
  have 1: "snd (continueFunctionInternal exDb (exCursor NEXT) None []) =
     [OnSuccess (CursorResult (fst (continueFunctionInternal exDb (exCursor NEXT) None [])))]"
    by force
  from advance_one_callback [of exDb "exhausted (exCursor NEXT)" None "[]"] b
  have 2: "snd (continueFunctionInternal exDb (exhausted (exCursor NEXT)) None []) =
     [OnSuccess NullValue]"
    by force
  from 1 2 show ?thesis by (rule conjI)
qed

section \<open>Scheduling\<close>

text \<open>
  C2, as the claim states it, fails: \<open>continueFunction\<close> does not look at the statement.
  On an exhausted cursor and a transaction that accepts tasks it writes no exception code
  and enqueues the task, and the task calls \<open>onSuccess\<close> with the null value.
\<close>

theorem continueFunction_exhausted_counterexample:
  "m_query (exhausted (exCursor NEXT)) = None
   \<and> continueFunction (exhausted (exCursor NEXT)) exTransaction None [] =
       (exhausted (exCursor NEXT), exTransaction\<lparr>t_taskQueue := [ContinueTask None]\<rparr>, [], None)
   \<and> runTask exDb (ContinueTask None) (exhausted (exCursor NEXT)) [] =
       (exhausted (exCursor NEXT), [OnSuccess NullValue])"
  by (simp add: continueFunction_def scheduleTask_def exTransaction_def cfi_exit)

text \<open>
  C2, amended. \<open>continueFunction\<close> writes \<open>NOT_ALLOWED_ERR\<close> exactly when the transaction
  refuses the task; then nothing is enqueued and no callback is called. Otherwise the task
  is enqueued, no exception code is written and no callback is called yet. The cursor is
  never changed by the call. On a cursor whose statement has been released the task, when
  it runs, calls \<open>onSuccess\<close> once with the null value and leaves the cursor exhausted.
\<close>

theorem continueFunction_NotAllowed:
  "continueFunction c t key cbs =
     (if t_finished t then (c, t, cbs, Some NOT_ALLOWED_ERR)
      else (c, t\<lparr>t_taskQueue := t_taskQueue t @ [ContinueTask key]\<rparr>, cbs, None))
   \<and> (m_query c = None \<longrightarrow>
        runTask db (ContinueTask key) c cbs = (exhausted c, cbs @ [OnSuccess NullValue]))"
  by (simp add: continueFunction_def scheduleTask_def cfi_exit pendingRows_def)

theorem continueFunction_NotAllowed_witness:
  "continueFunction (exCursor NEXT) (exTransaction\<lparr>t_finished := True\<rparr>) None [] =
     (exCursor NEXT, exTransaction\<lparr>t_finished := True\<rparr>, [], Some NOT_ALLOWED_ERR)
   \<and> continueFunction (exCursor NEXT) exTransaction None [] =
     (exCursor NEXT, exTransaction\<lparr>t_taskQueue := [ContinueTask None]\<rparr>, [], None)
   \<and> m_query (exhausted (exCursor NEXT)) = None
   \<and> runTask exDb (ContinueTask None) (exhausted (exCursor NEXT)) [] =
       (exhausted (exCursor NEXT), [OnSuccess NullValue])"
  using continueFunction_NotAllowed [of "exCursor NEXT" "exTransaction\<lparr>t_finished := True\<rparr>" None "[]"]
    continueFunction_NotAllowed [of "exCursor NEXT" exTransaction None "[]"]
    continueFunction_NotAllowed [of "exhausted (exCursor NEXT)" exTransaction None "[]" exDb]
  by (simp add: exTransaction_def)

section \<open>Advancing to a target key\<close>

lemma firstAccepted_no_target_row:
  "\<forall>r\<in>set rows. \<not> (rowExists db r \<and> col_key r = K) \<Longrightarrow>
     firstAccepted db nodup (Some K) prev rows = None"
  by (induction rows arbitrary: prev) auto

lemma firstAccepted_first_target_row:
  "\<forall>x\<in>set xs. col_key x \<noteq> K \<Longrightarrow> col_key r = K \<Longrightarrow> rowExists db r \<Longrightarrow>
   prev \<noteq> Some K \<Longrightarrow>
     firstAccepted db nodup (Some K) prev (xs @ r # ys) = Some (r, ys)"
  by (induction xs arbitrary: prev) auto

lemma firstAccepted_first_live_target_row:
  "\<forall>x\<in>set xs. \<not> (rowExists db x \<and> col_key x = K) \<Longrightarrow> col_key r = K \<Longrightarrow>
   rowExists db r \<Longrightarrow>
     firstAccepted db False (Some K) prev (xs @ r # ys) = Some (r, ys)"
  by (induction xs arbitrary: prev) auto

lemma cfi_target_discard:
  "m_query c = Some q \<and> q_pending q = r # rs \<and> col_key r \<noteq> K \<longrightarrow>
     continueFunctionInternal db c (Some K) cbs =
       continueFunctionInternal db (positionedAt c q r rs) (Some K) cbs"
proof
  assume a: "m_query c = Some q \<and> q_pending q = r # rs \<and> col_key r \<noteq> K"
  then have q: "m_query c = Some q" and p: "q_pending q = r # rs" and k: "col_key r \<noteq> K"
    by simp_all
  from k have "Some K \<noteq> Some (col_key r)" by auto
  then show "continueFunctionInternal db c (Some K) cbs =
       continueFunctionInternal db (positionedAt c q r rs) (Some K) cbs"
    by (simp add: cfi_row [OF q p])
qed

lemma cfi_target_stop:
  "snd (continueFunctionInternal db c (Some K) cbs) = cbs @ [OnSuccess (CursorResult cur)] \<longrightarrow>
     cur = fst (continueFunctionInternal db c (Some K) cbs)
     \<and> m_currentKey cur = Some K \<and> currentRowExists db cur"
proof
  assume s: "snd (continueFunctionInternal db c (Some K) cbs) = cbs @ [OnSuccess (CursorResult cur)]"
  from cfi_result [of db c "Some K" cbs]
  show "cur = fst (continueFunctionInternal db c (Some K) cbs)
     \<and> m_currentKey cur = Some K \<and> currentRowExists db cur"
  proof
    assume "continueFunctionInternal db c (Some K) cbs = (exhausted c, cbs @ [OnSuccess NullValue])"
    with s show ?thesis by simp
  next
    assume "\<exists>q skipped r rs.
         m_query c = Some q \<and> q_pending q = skipped @ r # rs
         \<and> rowExists db r \<and> (Some K = None \<or> Some K = Some (col_key r))
         \<and> continueFunctionInternal db c (Some K) cbs =
             (positionedAt c q r rs,
              cbs @ [OnSuccess (CursorResult (positionedAt c q r rs))])"
    then obtain q r rs where e: "rowExists db r" and k: "K = col_key r"
      and r: "continueFunctionInternal db c (Some K) cbs =
             (positionedAt c q r rs,
              cbs @ [OnSuccess (CursorResult (positionedAt c q r rs))])"
      by auto
    from s r have "cur = positionedAt c q r rs" by simp
    with e k r show ?thesis by simp
  qed
qed

lemma cfi_target_absent:
  "(\<forall>r\<in>set (pendingRows c). \<not> (rowExists db r \<and> col_key r = K)) \<longrightarrow>
     continueFunctionInternal db c (Some K) cbs = (exhausted c, cbs @ [OnSuccess NullValue])"
proof (cases "m_query c")
  case None
  then show ?thesis by (simp add: cfi_exit pendingRows_def)
next
  case (Some q)
  then show ?thesis
    by (simp add: cfi_firstAccepted [OF Some refl] pendingRows_def firstAccepted_no_target_row)
qed

lemma cfi_target_first:
  "m_query c = Some q \<and> q_pending q = xs @ r # ys \<and> (\<forall>x\<in>set xs. col_key x \<noteq> K)
     \<and> col_key r = K \<and> rowExists db r \<and> m_currentKey c \<noteq> Some K \<longrightarrow>
     continueFunctionInternal db c (Some K) cbs =
       (positionedAt c q r ys, cbs @ [OnSuccess (CursorResult (positionedAt c q r ys))])"
  by (simp add: cfi_firstAccepted [OF _ refl] firstAccepted_first_target_row)

lemma cfi_target_first_live:
  "m_query c = Some q \<and> q_pending q = xs @ r # ys
     \<and> (\<forall>x\<in>set xs. \<not> (rowExists db x \<and> col_key x = K))
     \<and> col_key r = K \<and> rowExists db r \<and> \<not> noDuplicate (m_direction c) \<longrightarrow>
     continueFunctionInternal db c (Some K) cbs =
       (positionedAt c q r ys, cbs @ [OnSuccess (CursorResult (positionedAt c q r ys))])"
  by (simp add: cfi_firstAccepted [OF _ refl] firstAccepted_first_live_target_row)

text \<open>
  What holds of an advance with the target key \<open>K\<close>. It discards a fetched row whose
  key is not \<open>K\<close> and goes on with the rows after it. When it stops on a row, the callback receives the cursor
  itself, the key of the cursor is \<open>K\<close> and its row exists. When no row still to come
  exists with the key \<open>K\<close>, the cursor becomes exhausted and the callback receives the null
  value. On a cursor whose key is not \<open>K\<close>, the advance stops on the first row to come
  with the key \<open>K\<close> when that row exists, in every direction; for \<open>NEXT\<close> and \<open>PREV\<close> it
  stops on the first row to come that exists and has the key \<open>K\<close>.
\<close>

lemma target_key_facts:
  "(m_query c = Some q \<and> q_pending q = r # rs \<and> col_key r \<noteq> K \<longrightarrow>
      continueFunctionInternal db c (Some K) cbs =
        continueFunctionInternal db (positionedAt c q r rs) (Some K) cbs)
   \<and> (snd (continueFunctionInternal db c (Some K) cbs) = cbs @ [OnSuccess (CursorResult cur)] \<longrightarrow>
      cur = fst (continueFunctionInternal db c (Some K) cbs)
      \<and> m_currentKey cur = Some K \<and> currentRowExists db cur)
   \<and> ((\<forall>r\<in>set (pendingRows c). \<not> (rowExists db r \<and> col_key r = K)) \<longrightarrow>
      continueFunctionInternal db c (Some K) cbs = (exhausted c, cbs @ [OnSuccess NullValue]))
   \<and> (m_query c = Some q \<and> q_pending q = xs @ r' # ys \<and> (\<forall>x\<in>set xs. col_key x \<noteq> K)
        \<and> col_key r' = K \<and> rowExists db r' \<and> m_currentKey c \<noteq> Some K \<longrightarrow>
      continueFunctionInternal db c (Some K) cbs =
        (positionedAt c q r' ys, cbs @ [OnSuccess (CursorResult (positionedAt c q r' ys))]))
   \<and> (m_query c = Some q \<and> q_pending q = xs @ r' # ys
        \<and> (\<forall>x\<in>set xs. \<not> (rowExists db x \<and> col_key x = K))
        \<and> col_key r' = K \<and> rowExists db r' \<and> \<not> noDuplicate (m_direction c) \<longrightarrow>
      continueFunctionInternal db c (Some K) cbs =
        (positionedAt c q r' ys, cbs @ [OnSuccess (CursorResult (positionedAt c q r' ys))]))"
  by (intro conjI cfi_target_discard cfi_target_stop cfi_target_absent cfi_target_first
      cfi_target_first_live)

text \<open>
  On the example index, a cursor without duplicates that stands on A advances to the
  target C over both rows of key B, and is exhausted by the target D.
\<close>

lemma target_key_facts_example:
  "continueFunctionInternal exDb (exCursor NEXT_NO_DUPLICATE) (Some (StringKey ''C'')) [] =
     (positionedAt (exCursor NEXT_NO_DUPLICATE) exQuery exRowC [],
      [OnSuccess (CursorResult (positionedAt (exCursor NEXT_NO_DUPLICATE) exQuery exRowC []))])
   \<and> continueFunctionInternal exDb (exCursor NEXT_NO_DUPLICATE) (Some (StringKey ''D'')) [] =
     (exhausted (exCursor NEXT_NO_DUPLICATE), [OnSuccess NullValue])"
proof -
  have h1: "m_query (exCursor NEXT_NO_DUPLICATE) = Some exQuery
     \<and> q_pending exQuery = [exRowB, exRowB'] @ exRowC # []
     \<and> (\<forall>x\<in>set [exRowB, exRowB']. col_key x \<noteq> StringKey ''C'')
     \<and> col_key exRowC = StringKey ''C'' \<and> rowExists exDb exRowC
     \<and> m_currentKey (exCursor NEXT_NO_DUPLICATE) \<noteq> Some (StringKey ''C'')"
    by (simp add: ex_defs rowExists_def)
  have h2: "\<forall>r\<in>set (pendingRows (exCursor NEXT_NO_DUPLICATE)).
      \<not> (rowExists exDb r \<and> col_key r = StringKey ''D'')"
    by (simp add: ex_defs pendingRows_def)
  note t1 = target_key_facts [where c = "exCursor NEXT_NO_DUPLICATE" and q = exQuery
      and K = "StringKey ''C''" and db = exDb and cbs = "[]" and xs = "[exRowB, exRowB']"
      and r' = exRowC and ys = "[]",
      THEN conjunct2, THEN conjunct2, THEN conjunct2, THEN conjunct1, THEN mp, OF h1]
  note t2 = target_key_facts [where c = "exCursor NEXT_NO_DUPLICATE"
      and K = "StringKey ''D''" and db = exDb and cbs = "[]",
      THEN conjunct2, THEN conjunct2, THEN conjunct1, THEN mp, OF h2]
  show ?thesis
    by (intro conjI t1 [simplified] t2 [simplified])
qed

text \<open>
  C7. On a cursor that stands on A, before the target key B, with the rows B, B, C to come
  and the first row of key B deleted: for \<open>NEXT_NO_DUPLICATE\<close> the advance to B discards
  the deleted row, takes the second row of key B, which exists, for a duplicate of it
  (line 144, against the key remembered at line 130), and ends exhausted with the null
  value, an existing row of key B left behind. For \<open>NEXT\<close> the same advance stops on that
  row.
\<close>

theorem target_key_after_deleted_row_exhausts:
  "m_currentKey (exCursor NEXT_NO_DUPLICATE) = Some (StringKey ''A'')
   \<and> q_pending exQuery = [exRowB, exRowB', exRowC]
   \<and> col_key exRowB' = StringKey ''B'' \<and> rowExists exDbDeleted exRowB'
   \<and> continueFunctionInternal exDbDeleted (exCursor NEXT_NO_DUPLICATE)
         (Some (StringKey ''B'')) []
       = (exhausted (exCursor NEXT_NO_DUPLICATE), [OnSuccess NullValue])
   \<and> continueFunctionInternal exDbDeleted (exCursor NEXT) (Some (StringKey ''B'')) []
       = (positionedAt (exCursor NEXT) exQuery exRowB' [exRowC],
          [OnSuccess (CursorResult (positionedAt (exCursor NEXT) exQuery exRowB' [exRowC]))])"
  by (simp add: continueFunctionInternal.simps stepToRow_def currentRowExists_def Let_def
      rowExists_def positionedAt_def exhausted_def ex_defs)

section \<open>The row id and the key of the position\<close>

text \<open>
  The operations on a cursor: an advance that runs under a state of the database with a
  target key or none, an update with a value, and a delete.
\<close>

datatype Operation =
    Advance IDBSQLiteDatabase "IDBKey option"
  | Update string
  | Delete

fun applyOperation :: "IDBCursorBackendImpl \<Rightarrow> Operation \<Rightarrow> IDBCursorBackendImpl" where
  "applyOperation c (Advance db key) = fst (continueFunctionInternal db c key [])"
| "applyOperation c (Update v) = fst (update c v)"
| "applyOperation c Delete = fst (deleteFunction c)"

text \<open>
  The cursor has no position in three ways at once: the row id is \<open>InvalidId\<close> exactly
  when the key is absent, and the key is absent exactly when the statement has been
  released. The second notion: no row still to come carries the id \<open>InvalidId\<close>.
\<close>

definition positionInvariant :: "IDBCursorBackendImpl \<Rightarrow> bool" where
  "positionInvariant c =
     (((m_currentId c = InvalidId) = (m_currentKey c = None))
      \<and> ((m_currentKey c = None) = (m_query c = None)))"

definition rowIdsValid :: "IDBCursorBackendImpl \<Rightarrow> bool" where
  "rowIdsValid c = (\<forall>r\<in>set (pendingRows c). col_id r \<noteq> InvalidId)"

lemma new_invariant:
  "col_id (q_row q) \<noteq> InvalidId \<Longrightarrow> positionInvariant (IDBCursorBackendImpl_new d q v)"
  by (simp add: positionInvariant_def IDBCursorBackendImpl_new_def loadCurrentRow_def)

lemma new_rowIdsValid:
  "\<forall>r\<in>set (q_pending q). col_id r \<noteq> InvalidId \<Longrightarrow> rowIdsValid (IDBCursorBackendImpl_new d q v)"
  by (simp add: rowIdsValid_def pendingRows_def IDBCursorBackendImpl_new_def loadCurrentRow_def)

lemma advance_invariant:
  assumes "rowIdsValid c"
  shows "positionInvariant (fst (continueFunctionInternal db c key cbs))
         \<and> rowIdsValid (fst (continueFunctionInternal db c key cbs))"
  using cfi_result [of db c key cbs]
proof
  assume "continueFunctionInternal db c key cbs = (exhausted c, cbs @ [OnSuccess NullValue])"
  then show ?thesis by (simp add: positionInvariant_def rowIdsValid_def)
next
  assume "\<exists>q skipped r rs.
         m_query c = Some q \<and> q_pending q = skipped @ r # rs
         \<and> rowExists db r \<and> (key = None \<or> key = Some (col_key r))
         \<and> continueFunctionInternal db c key cbs =
             (positionedAt c q r rs,
              cbs @ [OnSuccess (CursorResult (positionedAt c q r rs))])"
  then obtain q skipped r rs where q: "m_query c = Some q"
    and p: "q_pending q = skipped @ r # rs"
    and r: "continueFunctionInternal db c key cbs =
             (positionedAt c q r rs,
              cbs @ [OnSuccess (CursorResult (positionedAt c q r rs))])"
    by blast
  from assms q p have "col_id r \<noteq> InvalidId" and "\<forall>x\<in>set rs. col_id x \<noteq> InvalidId"
    by (simp_all add: rowIdsValid_def pendingRows_def)
  with r show ?thesis by (simp add: positionInvariant_def rowIdsValid_def pendingRows_def)
qed

lemma applyOperation_invariant:
  assumes "positionInvariant c \<and> rowIdsValid c"
  shows "positionInvariant (applyOperation c op) \<and> rowIdsValid (applyOperation c op)"
proof (cases op)
  case (Advance db key)
  with assms show ?thesis using advance_invariant [of c db key "[]"] by simp
next
  case (Update v)
  with assms show ?thesis by (simp add: update_def Let_def)
next
  case Delete
  with assms show ?thesis by (simp add: deleteFunction_def Let_def)
qed

lemma foldl_applyOperation_invariant:
  "positionInvariant c \<and> rowIdsValid c \<Longrightarrow>
     positionInvariant (foldl applyOperation c ops) \<and> rowIdsValid (foldl applyOperation c ops)"
proof (induction ops arbitrary: c)
  case Nil
  then show ?case by simp
next
  case (Cons op ops)
  from applyOperation_invariant [OF Cons.prems]
  have "positionInvariant (applyOperation c op) \<and> rowIdsValid (applyOperation c op)" .
  from Cons.IH [OF this] show ?case by simp
qed

text \<open>
  C8. The rows of a statement carry ids of the store, none of them the sentinel
  \<open>InvalidId\<close>, which stands for no row. For a cursor constructed on such a statement, after
  the construction and after any sequence of advances, updates and deletes, the current row
  id is \<open>InvalidId\<close> if and only if the current key is absent, and both hold if and only
  if the cursor has no position, its statement released.
\<close>

theorem position_invariant:
  assumes "\<forall>r\<in>set (q_row q # q_pending q). col_id r \<noteq> InvalidId"
  shows "((m_currentId (foldl applyOperation (IDBCursorBackendImpl_new d q v) ops) = InvalidId)
          = (m_currentKey (foldl applyOperation (IDBCursorBackendImpl_new d q v) ops) = None))
       \<and> ((m_currentKey (foldl applyOperation (IDBCursorBackendImpl_new d q v) ops) = None)
          = (m_query (foldl applyOperation (IDBCursorBackendImpl_new d q v) ops) = None))"
proof -
  from assms have "positionInvariant (IDBCursorBackendImpl_new d q v)
      \<and> rowIdsValid (IDBCursorBackendImpl_new d q v)"
    by (simp add: new_invariant new_rowIdsValid)
  from foldl_applyOperation_invariant [OF this, of ops]
  show ?thesis by (simp add: positionInvariant_def)
qed

text \<open>
  On the example index: after an update, an advance over the deleted row and a delete the
  cursor stands on the second row of key B, with a row id, a key and a statement; a further
  advance to the key A, which no row to come has, leaves it with none of the three.
\<close>

theorem position_invariant_witness:
  "col_id exRowA \<noteq> InvalidId \<and> col_id exRowB \<noteq> InvalidId
   \<and> col_id exRowB' \<noteq> InvalidId \<and> col_id exRowC \<noteq> InvalidId
   \<and> m_currentId (foldl applyOperation (exCursor NEXT)
        [Update ''v'', Advance exDbDeleted None, Delete]) = 3
   \<and> m_currentKey (foldl applyOperation (exCursor NEXT)
        [Update ''v'', Advance exDbDeleted None, Delete]) \<noteq> None
   \<and> m_query (foldl applyOperation (exCursor NEXT)
        [Update ''v'', Advance exDbDeleted None, Delete]) \<noteq> None
   \<and> m_query (foldl applyOperation (exCursor NEXT)
        [Update ''v'', Advance exDbDeleted None, Delete, Advance exDb (Some (StringKey ''A''))])
        = None
   \<and> m_currentKey (foldl applyOperation (exCursor NEXT)
        [Update ''v'', Advance exDbDeleted None, Delete, Advance exDb (Some (StringKey ''A''))])
        = None
   \<and> m_currentId (foldl applyOperation (exCursor NEXT)
        [Update ''v'', Advance exDbDeleted None, Delete, Advance exDb (Some (StringKey ''A''))])
        = InvalidId"
proof -
  let ?ops = "[Update ''v'', Advance exDbDeleted None, Delete]"
  let ?ops' = "[Update ''v'', Advance exDbDeleted None, Delete,
      Advance exDb (Some (StringKey ''A''))]"
  have h: "\<forall>r\<in>set (q_row exQuery # q_pending exQuery). col_id r \<noteq> InvalidId"
    by (simp add: ex_defs)
  have v: "col_id exRowA \<noteq> InvalidId" "col_id exRowB \<noteq> InvalidId"
    "col_id exRowB' \<noteq> InvalidId" "col_id exRowC \<noteq> InvalidId"
    by (simp_all add: ex_defs)
  have e: "foldl applyOperation (exCursor NEXT) ?ops
      = positionedAt (exCursor NEXT) exQuery exRowB' [exRowC]"
    by (simp add: update_def deleteFunction_def continueFunctionInternal.simps stepToRow_def
        currentRowExists_def positionedAt_def Let_def ex_defs)
  have i: "m_currentId (foldl applyOperation (exCursor NEXT) ?ops) = 3"
    by (simp only: e) (simp add: exRowB'_def)
  have n: "m_currentId (foldl applyOperation (exCursor NEXT) ?ops) \<noteq> InvalidId"
    by (simp only: i) (simp add: InvalidId_def)
  have x: "m_query (foldl applyOperation (exCursor NEXT) ?ops') = None"
    by (simp add: update_def deleteFunction_def continueFunctionInternal.simps stepToRow_def
        currentRowExists_def Let_def ex_defs)
  note w = position_invariant [OF h, of NEXT True ?ops, folded exCursor_def]
  note w' = position_invariant [OF h, of NEXT True ?ops', folded exCursor_def]
  from w n have k: "m_currentKey (foldl applyOperation (exCursor NEXT) ?ops) \<noteq> None"
    by blast
  from w k have q: "m_query (foldl applyOperation (exCursor NEXT) ?ops) \<noteq> None"
    by blast
  from w' x have k': "m_currentKey (foldl applyOperation (exCursor NEXT) ?ops') = None"
    by blast
  from w' k' have i': "m_currentId (foldl applyOperation (exCursor NEXT) ?ops') = InvalidId"
    by blast
  show ?thesis
    by (intro conjI v i k q x k' i')
qed

section \<open>Iterating a cursor\<close>

text \<open>An advance that stops on a row has consumed at least one row of the statement.\<close>

lemma cfi_progress:
  "m_query (fst (continueFunctionInternal db c key cbs)) \<noteq> None \<Longrightarrow>
     length (pendingRows (fst (continueFunctionInternal db c key cbs))) < length (pendingRows c)"
  using cfi_result [of db c key cbs] by (auto simp: pendingRows_def)

text \<open>
  The caller of the scenarios of the spec: it advances the cursor with no target key, under
  one state of the database, until the callback receives the null value. The result is
  every call made on the callbacks, in order.
\<close>

function advanceAll :: "IDBSQLiteDatabase \<Rightarrow> IDBCursorBackendImpl \<Rightarrow> CallbackEvent list" where
  "advanceAll db c =
     (case continueFunctionInternal db c None [] of
        (c', callbacks) \<Rightarrow>
          if m_query c' = None then callbacks else callbacks @ advanceAll db c')"
  by pat_completeness auto
termination
proof (relation "measure (\<lambda>(db, c). length (pendingRows c))", goal_cases)
  case 1
  show ?case by simp
next
  case (2 db c c' callbacks)
  from 2(1) have "c' = fst (continueFunctionInternal db c None [])"
    by (metis fst_conv)
  with 2(2) cfi_progress [of db c None "[]"] show ?case by simp
qed

declare advanceAll.simps [simp del]

text \<open>The keys the caller reads from the cursors it receives.\<close>

fun deliveredKeys :: "CallbackEvent list \<Rightarrow> IDBKey option list" where
  "deliveredKeys [] = []"
| "deliveredKeys (OnSuccess (CursorResult c) # es) = m_currentKey c # deliveredKeys es"
| "deliveredKeys (e # es) = deliveredKeys es"






lemma advanceAll_cong:
  "continueFunctionInternal db c None [] = continueFunctionInternal db c' None [] \<Longrightarrow>
     advanceAll db c = advanceAll db c'"
  by (simp add: advanceAll.simps [of db c] advanceAll.simps [of db c'])

lemma advanceAll_exit:
  "continueFunctionInternal db c None [] = (exhausted c, [OnSuccess NullValue]) \<Longrightarrow>
     advanceAll db c = [OnSuccess NullValue]"
  by (simp add: advanceAll.simps [of db c])

lemma advanceAll_accept:
  "continueFunctionInternal db c None [] =
     (positionedAt c q r rs, [OnSuccess (CursorResult (positionedAt c q r rs))]) \<Longrightarrow>
     advanceAll db c =
       OnSuccess (CursorResult (positionedAt c q r rs)) # advanceAll db (positionedAt c q r rs)"
  by (simp add: advanceAll.simps [of db c])




lemmas run_defs =
  advanceAll.simps continueFunctionInternal.simps stepToRow_def currentRowExists_def Let_def




text \<open>
  What holds of deleted rows. A row that an advance delivers exists in its authoritative
  table, in every direction and with any target key. For \<open>NEXT\<close> and \<open>PREV\<close> the keys
  delivered are the keys of the rows to come that exist, in the order of the statement:
  the deleted rows are skipped and leave no trace.
\<close>

lemma delivered_row_exists:
  assumes "snd (continueFunctionInternal db c key cbs) = cbs @ [OnSuccess (CursorResult cur)]"
  shows "currentRowExists db cur"
  using cfi_result [of db c key cbs]
proof
  assume "continueFunctionInternal db c key cbs = (exhausted c, cbs @ [OnSuccess NullValue])"
  with assms show ?thesis by simp
next
  assume "\<exists>q skipped r rs.
         m_query c = Some q \<and> q_pending q = skipped @ r # rs
         \<and> rowExists db r \<and> (key = None \<or> key = Some (col_key r))
         \<and> continueFunctionInternal db c key cbs =
             (positionedAt c q r rs,
              cbs @ [OnSuccess (CursorResult (positionedAt c q r rs))])"
  then obtain q r rs where e: "rowExists db r"
    and r: "continueFunctionInternal db c key cbs =
             (positionedAt c q r rs,
              cbs @ [OnSuccess (CursorResult (positionedAt c q r rs))])"
    by blast
  from assms r have "cur = positionedAt c q r rs" by simp
  with e show ?thesis by simp
qed

lemma plain_deliveries:
  "m_query c = Some q \<Longrightarrow> q_pending q = rows \<Longrightarrow> \<not> noDuplicate (m_direction c) \<Longrightarrow>
     deliveredKeys (advanceAll db c) = map (\<lambda>r. Some (col_key r)) (filter (rowExists db) rows)"
proof (induction rows arbitrary: c q)
  case Nil
  then have "pendingRows c = []" by (simp add: pendingRows_def)
  then have "advanceAll db c = [OnSuccess NullValue]"
    using cfi_exit [of c db None "[]"] by (simp add: advanceAll_exit)
  then show ?case by simp
next
  case (Cons r rs)
  let ?c' = "positionedAt c q r rs"
  let ?q' = "q\<lparr>q_row := r, q_pending := rs\<rparr>"
  note step = cfi_row [OF Cons.prems(1) Cons.prems(2), of db None "[]"]
  have q': "m_query ?c' = Some ?q'" "q_pending ?q' = rs" "\<not> noDuplicate (m_direction ?c')"
    using Cons.prems(3) by simp_all
  note ih = Cons.IH [OF q']
  show ?case
  proof (cases "rowExists db r")
    case False
    with step
    have "continueFunctionInternal db c None [] = continueFunctionInternal db ?c' None []"
      by simp
    then have "advanceAll db c = advanceAll db ?c'" by (rule advanceAll_cong)
    with ih False show ?thesis by simp
  next
    case True
    with step Cons.prems(3)
    have "continueFunctionInternal db c None [] = (?c', [OnSuccess (CursorResult ?c')])"
      by simp
    then have "advanceAll db c = OnSuccess (CursorResult ?c') # advanceAll db ?c'"
      by (rule advanceAll_accept)
    with ih True show ?thesis by simp
  qed
qed

text \<open>
  C5. With the rows A, B, B, C and the first row of key B deleted, a cursor of direction
  \<open>NEXT_NO_DUPLICATE\<close> delivers A and C: the deleted row is skipped, but its key is
  remembered as the previous key (line 130), so the second row of key B, which exists, is
  taken for a duplicate. Without the deleted row in the statement the same cursor delivers
  A, B, C, and so does a cursor of direction \<open>NEXT\<close> with the deleted row in the statement.
\<close>

theorem nodup_deleted_leader_hides_live_row:
  "m_currentKey (exCursor NEXT_NO_DUPLICATE)
     # deliveredKeys (advanceAll exDbDeleted (exCursor NEXT_NO_DUPLICATE))
     = [Some (StringKey ''A''), Some (StringKey ''C'')]
   \<and> rowExists exDbDeleted exRowB'
   \<and> m_currentKey (IDBCursorBackendImpl_new NEXT_NO_DUPLICATE
         \<lparr>q_row = exRowA, q_pending = [exRowB', exRowC]\<rparr> True)
     # deliveredKeys (advanceAll exDbDeleted (IDBCursorBackendImpl_new NEXT_NO_DUPLICATE
         \<lparr>q_row = exRowA, q_pending = [exRowB', exRowC]\<rparr> True))
     = [Some (StringKey ''A''), Some (StringKey ''B''), Some (StringKey ''C'')]
   \<and> m_currentKey (exCursor NEXT)
     # deliveredKeys (advanceAll exDbDeleted (exCursor NEXT))
     = [Some (StringKey ''A''), Some (StringKey ''B''), Some (StringKey ''C'')]"
  by (simp add: run_defs rowExists_def ex_defs)

end
